theory Spec2Isabelle
  imports Main
begin

section \<open>Python primitives used by the split-point table\<close>

text \<open>
  Python strings are modelled as \<open>string\<close>, one \<open>char\<close> per code point; code points
  above 255 are outside the model. Python integers are unbounded and are modelled as
  \<open>int\<close>; the interpreter's configurable limit on the number of digits of a decimal
  conversion is not modelled.
\<close>

datatype error = ValueError string | TypeError string

definition is_digit :: "char \<Rightarrow> bool" where
  "is_digit c = (48 \<le> (of_char c :: nat) \<and> (of_char c :: nat) \<le> 57)"

definition digit_val :: "char \<Rightarrow> nat" where
  "digit_val c = of_char c - 48"

definition digit_char :: "nat \<Rightarrow> char" where
  "digit_char d = char_of (48 + d)"

text \<open>
  Whitespace skipped by \<open>int()\<close> around the literal: tab, line feed, vertical tab,
  form feed, carriage return and space, and the two whitespace code points of the range
  128..255 (next line, no-break space).
\<close>

definition py_isspace :: "char \<Rightarrow> bool" where
  "py_isspace c = ((of_char c :: nat) \<in> {9, 10, 11, 12, 13, 32, 133, 160})"

definition py_strip :: "string \<Rightarrow> string" where
  "py_strip s = rev (dropWhile py_isspace (rev (dropWhile py_isspace s)))"

text \<open>
  The digits of a base-10 literal, read left to right into an accumulator. A single
  underscore is allowed between two digits.
\<close>

fun parse_digits :: "nat \<Rightarrow> string \<Rightarrow> nat option" where
  "parse_digits acc [] = Some acc"
| "parse_digits acc (c # cs) =
     (if is_digit c then parse_digits (acc * 10 + digit_val c) cs
      else if c = CHR ''_'' \<and> cs \<noteq> [] \<and> is_digit (hd cs) then parse_digits acc cs
      else None)"

definition py_digits :: "string \<Rightarrow> nat option" where
  "py_digits cs =
     (case cs of [] \<Rightarrow> None
      | c # _ \<Rightarrow> if is_digit c then parse_digits 0 cs else None)"

text \<open>\<open>int(s)\<close> for a string \<open>s\<close>: \<open>None\<close> stands for the \<open>ValueError\<close> it raises.\<close>

definition py_int :: "string \<Rightarrow> int option" where
  "py_int s =
     (case py_strip s of [] \<Rightarrow> None
      | c # cs \<Rightarrow>
          if c = CHR ''-'' then map_option (\<lambda>n. - int n) (py_digits cs)
          else if c = CHR ''+'' then map_option int (py_digits cs)
          else map_option int (py_digits (c # cs)))"

text \<open>\<open>s.split(sep)\<close> for a one-character separator: always at least one field.\<close>

fun py_split :: "char \<Rightarrow> string \<Rightarrow> string list" where
  "py_split sep [] = [[]]"
| "py_split sep (c # cs) =
     (if c = sep then [] # py_split sep cs
      else (case py_split sep cs of
              [] \<Rightarrow> [[c]]
            | f # fs \<Rightarrow> (c # f) # fs))"

text \<open>\<open>str(n)\<close> for a non-negative integer.\<close>

fun str_nat :: "nat \<Rightarrow> string" where
  "str_nat n = (if n < 10 then [digit_char n] else str_nat (n div 10) @ [digit_char (n mod 10)])"

declare str_nat.simps [simp del]

text \<open>
  The format specification \<open>0wd\<close>: sign-aware zero padding to a minimum width \<open>w\<close>,
  the sign counting towards the width.
\<close>

definition zero_pad :: "nat \<Rightarrow> string \<Rightarrow> string" where
  "zero_pad w ds = replicate (w - length ds) CHR ''0'' @ ds"

definition format_d :: "nat \<Rightarrow> int \<Rightarrow> string" where
  "format_d w n =
     (if n < 0 then CHR ''-'' # zero_pad (w - 1) (str_nat (nat (- n)))
      else zero_pad w (str_nat (nat n)))"

section \<open>Time text: \<open>SplitPointsTable.parse_time\<close> and \<open>format_time\<close>\<close>

definition parse_time :: "string \<Rightarrow> error + int" where
  "parse_time time_str =
     (case py_split CHR '':'' time_str of
        [hours, minutes, rest] \<Rightarrow>
          (case py_split CHR ''.'' rest of
             [seconds, milliseconds] \<Rightarrow>
               (case py_int hours of
                  None \<Rightarrow> Inl (ValueError (''Invalid time format: '' @ time_str))
                | Some h \<Rightarrow>
               (case py_int minutes of
                  None \<Rightarrow> Inl (ValueError (''Invalid time format: '' @ time_str))
                | Some m \<Rightarrow>
               (case py_int seconds of
                  None \<Rightarrow> Inl (ValueError (''Invalid time format: '' @ time_str))
                | Some s \<Rightarrow>
               (case py_int milliseconds of
                  None \<Rightarrow> Inl (ValueError (''Invalid time format: '' @ time_str))
                | Some ms \<Rightarrow> Inr ((h * 3600 + m * 60 + s) * 1000 + ms)))))
           | _ \<Rightarrow> Inl (ValueError (''Invalid time format: '' @ time_str)))
      | _ \<Rightarrow> Inl (ValueError (''Invalid time format: '' @ time_str)))"

definition format_time :: "int option \<Rightarrow> string" where
  "format_time ms_opt =
     (case ms_opt of
        None \<Rightarrow> ''00:00:00.000''
      | Some ms \<Rightarrow>
          (let seconds = ms div 1000;
               minutes = seconds div 60;
               hours = minutes div 60
           in format_d 2 hours @ '':'' @ format_d 2 (minutes mod 60) @ '':'' @
              format_d 2 (seconds mod 60) @ ''.'' @ format_d 3 (ms mod 1000)))"





section \<open>Split points and the table's list: \<open>SplitPoint\<close>, \<open>SplitPointsTable\<close>\<close>

text \<open>
  A \<open>SplitPoint\<close> object. Both times may be \<open>None\<close> in Python, so both are options.
  The constructor sets \<open>selected\<close> to \<open>True\<close>.
\<close>

record SplitPoint =
  start_time :: "int option"
  end_time :: "int option"
  selected :: bool

definition new_SplitPoint :: "int option \<Rightarrow> int option \<Rightarrow> SplitPoint" where
  "new_SplitPoint st en = \<lparr>start_time = st, end_time = en, selected = True\<rparr>"

definition duration :: "SplitPoint \<Rightarrow> int" where
  "duration p =
     (case end_time p of
        None \<Rightarrow> 0
      | Some e \<Rightarrow> (case start_time p of None \<Rightarrow> 0 | Some s \<Rightarrow> e - s))"

text \<open>
  The table's state is its list \<open>split_points\<close>; the displayed cells are a function of
  it (\<open>update_table\<close>) and are not part of the state. \<open>add_split_point\<close> receives the
  player's position, an integer (the signal is declared \<open>Signal(int)\<close>).
\<close>

definition add_split_point :: "int \<Rightarrow> SplitPoint list \<Rightarrow> SplitPoint list" where
  "add_split_point current_time split_points =
     (let start = (if split_points = [] then Some 0 else end_time (last split_points));
          appended = split_points @ [new_SplitPoint start (Some current_time)]
      in if length appended > 1
         then appended[length appended - 2 :=
                (appended ! (length appended - 2))\<lparr>end_time := start\<rparr>]
         else appended)"

text \<open>\<open>checked\<close> is the value of the comparison \<open>state == Qt.Checked\<close>.\<close>

definition toggle_selection :: "nat \<Rightarrow> bool \<Rightarrow> SplitPoint list \<Rightarrow> SplitPoint list" where
  "toggle_selection row checked split_points =
     (if row < length split_points
      then split_points[row := (split_points ! row)\<lparr>selected := checked\<rparr>]
      else split_points)"

text \<open>
  \<open>cell_edited\<close>: \<open>time_str\<close> is the text of the edited cell. The \<open>ValueError\<close> of
  \<open>parse_time\<close> is caught by the handler, which only redraws the table.
\<close>

definition cell_edited :: "nat \<Rightarrow> nat \<Rightarrow> string \<Rightarrow> SplitPoint list \<Rightarrow> SplitPoint list" where
  "cell_edited row column time_str split_points =
     (if row \<ge> length split_points \<or> column \<notin> {1, 2} then split_points
      else
        (case parse_time time_str of
           Inl e \<Rightarrow> split_points
         | Inr time_ms \<Rightarrow>
             if column = 1 then
               (let sp1 = split_points[row := (split_points ! row)\<lparr>start_time := Some time_ms\<rparr>]
                in if row > 0
                   then sp1[row - 1 := (sp1 ! (row - 1))\<lparr>end_time := Some time_ms\<rparr>]
                   else sp1)
             else
               (let sp1 = split_points[row := (split_points ! row)\<lparr>end_time := Some time_ms\<rparr>]
                in if row < length split_points - 1
                   then sp1[row + 1 := (sp1 ! (row + 1))\<lparr>start_time := Some time_ms\<rparr>]
                   else sp1)))"

text \<open>
  \<open>get_selected_points\<close> builds a new list holding the selected objects themselves, not
  copies. An object is named by its position in the table's list, so the result is the
  list of positions of the selected objects, in order.
\<close>

definition get_selected_points :: "SplitPoint list \<Rightarrow> nat list" where
  "get_selected_points split_points =
     filter (\<lambda>i. selected (split_points ! i)) [0..<length split_points]"

text \<open>The operations a user can perform on the table, and a run of them from the empty list.\<close>

datatype table_op = AddSplitPoint int | CellEdited nat nat string | ToggleSelection nat bool

fun apply_table_op :: "table_op \<Rightarrow> SplitPoint list \<Rightarrow> SplitPoint list" where
  "apply_table_op (AddSplitPoint t) sps = add_split_point t sps"
| "apply_table_op (CellEdited row column time_str) sps = cell_edited row column time_str sps"
| "apply_table_op (ToggleSelection row checked) sps = toggle_selection row checked sps"

definition run_table_ops :: "table_op list \<Rightarrow> SplitPoint list" where
  "run_table_ops ops = foldl (\<lambda>sps op. apply_table_op op sps) [] ops"

text \<open>The gapless chain: the end of each interval is the start of the next, where both are set.\<close>

definition linked :: "SplitPoint \<Rightarrow> SplitPoint \<Rightarrow> bool" where
  "linked p q =
     (case end_time p of
        None \<Rightarrow> True
      | Some e \<Rightarrow> (case start_time q of None \<Rightarrow> True | Some s \<Rightarrow> e = s))"

fun gapless_chain :: "SplitPoint list \<Rightarrow> bool" where
  "gapless_chain [] = True"
| "gapless_chain [p] = True"
| "gapless_chain (p # q # ps) = (linked p q \<and> gapless_chain (q # ps))"

text \<open>An edit of the start cell of the first row with a text that parses.\<close>

fun edits_first_start :: "table_op \<Rightarrow> bool" where
  "edits_first_start (CellEdited row column time_str) =
     (row = 0 \<and> column = 1 \<and> \<not> isl (parse_time time_str))"
| "edits_first_start _ = False"

section \<open>The export driver: \<open>VideoSplitter\<close>\<close>

text \<open>
  The media library and \<open>os.path\<close> are outside the repository and are parameters of the
  model. \<open>'f\<close> is the type of Python floats; the two float operations the driver uses
  are parameters too. A call that raises returns the text of the exception (\<open>str(e)\<close>).
\<close>

record 'f VideoFileClip =
  clip_duration :: 'f
  clip_w :: int
  clip_h :: int
  clip_fps :: 'f

record 'f environment =
  open_clip :: "string \<Rightarrow> string + 'f VideoFileClip"
  times_1000 :: "'f \<Rightarrow> 'f"
  int_of_float :: "'f \<Rightarrow> int"
  write_segment :: "int \<Rightarrow> int \<Rightarrow> string \<Rightarrow> string \<Rightarrow> string option"
  base_name_of :: "string \<Rightarrow> string"
  file_name_of :: "string \<Rightarrow> string"
  path_join :: "string \<Rightarrow> string \<Rightarrow> string"

text \<open>
  \<^item> \<open>open_clip p\<close> is \<open>VideoFileClip(p)\<close>;
  \<^item> \<open>times_1000 x\<close> is \<open>x * 1000\<close> and \<open>int_of_float x\<close> is \<open>int(x)\<close>;
  \<^item> \<open>write_segment start_ms end_ms output_path temp_audiofile\<close> is
    \<open>video.subclipped(start_ms / 1000, end_ms / 1000)\<close> followed by \<open>write_videofile\<close>
    with the fixed codecs: \<open>None\<close> when both return, the exception's text otherwise;
  \<^item> \<open>base_name_of p\<close> is \<open>os.path.splitext(os.path.basename(p))[0]\<close>,
    \<open>file_name_of p\<close> is \<open>os.path.basename(p)\<close>, \<open>path_join\<close> is \<open>os.path.join\<close>.

  What a run does is its trace: the signals it emits and the calls it makes on the
  media library, in order.
\<close>

datatype event =
    ErrorOccurred string
  | SegmentStarted nat string
  | ProgressUpdated nat nat
  | SplittingCompleted
  | ClipOpened string
  | ClipClosed
  | WriteVideofile int int string string

definition is_signal :: "event \<Rightarrow> bool" where
  "is_signal ev =
     (case ev of
        ErrorOccurred _ \<Rightarrow> True
      | SegmentStarted _ _ \<Rightarrow> True
      | ProgressUpdated _ _ \<Rightarrow> True
      | SplittingCompleted \<Rightarrow> True
      | _ \<Rightarrow> False)"

text \<open>The text of the \<open>TypeError\<close> raised by \<open>None / 1000\<close>.\<close>

definition none_division_message :: string where
  "none_division_message =
     ''unsupported operand type(s) for /: '' @ [CHR 0x27] @ ''NoneType'' @ [CHR 0x27] @
     '' and '' @ [CHR 0x27] @ ''int'' @ [CHR 0x27]"

definition output_filename :: "string \<Rightarrow> nat \<Rightarrow> string" where
  "output_filename base_name i = base_name @ ''_split_'' @ str_nat (i + 1) @ ''.mp4''"

definition temp_audiofile :: "'f environment \<Rightarrow> string \<Rightarrow> nat \<Rightarrow> string" where
  "temp_audiofile env output_dir i =
     path_join env output_dir (''temp_audio_'' @ str_nat i @ ''.m4a'')"

text \<open>
  The events of segment \<open>i\<close> (0-based) up to and including the call of the encoder.
\<close>

definition segment_events ::
  "'f environment \<Rightarrow> string \<Rightarrow> string \<Rightarrow> nat \<Rightarrow> nat \<Rightarrow> int \<Rightarrow> int \<Rightarrow> event list" where
  "segment_events env base_name output_dir total_segments i start_ms end_ms =
     [SegmentStarted (i + 1) (output_filename base_name i),
      ProgressUpdated i total_segments,
      WriteVideofile start_ms end_ms
        (path_join env output_dir (output_filename base_name i))
        (temp_audiofile env output_dir i)]"

text \<open>
  The loop \<open>for i, point in enumerate(split_points)\<close>, from index \<open>i\<close> on: the events
  emitted, and the text of the exception that ended the loop, if one did.
\<close>

fun process_points ::
  "'f environment \<Rightarrow> string \<Rightarrow> string \<Rightarrow> nat \<Rightarrow> nat \<Rightarrow> SplitPoint list
     \<Rightarrow> event list \<times> string option" where
  "process_points env base_name output_dir total_segments i [] = ([], None)"
| "process_points env base_name output_dir total_segments i (point # points) =
     (case start_time point of
        None \<Rightarrow> ([], Some none_division_message)
      | Some start_ms \<Rightarrow>
     (case end_time point of
        None \<Rightarrow> ([], Some none_division_message)
      | Some end_ms \<Rightarrow>
          (let evs = segment_events env base_name output_dir total_segments i start_ms end_ms
           in case write_segment env start_ms end_ms
                     (path_join env output_dir (output_filename base_name i))
                     (temp_audiofile env output_dir i) of
                Some msg \<Rightarrow> (evs, Some msg)
              | None \<Rightarrow>
                  (let (evs', exc) = process_points env base_name output_dir total_segments (i + 1) points
                   in (evs @ evs', exc)))))"

text \<open>
  Two notions for stating what a run does. \<open>point_events\<close> are the events of a point
  whose two times are set. \<open>encoder_outcome\<close> is what the encoder answers for a point
  at index \<open>i\<close>: \<open>Some None\<close> when it returns, \<open>Some (Some msg)\<close> when it raises, and
  \<open>None\<close> when a time is missing and the encoder is not reached.
\<close>

definition point_events ::
  "'f environment \<Rightarrow> string \<Rightarrow> string \<Rightarrow> nat \<Rightarrow> nat \<Rightarrow> SplitPoint \<Rightarrow> event list" where
  "point_events env base_name output_dir total_segments i point =
     (case start_time point of
        None \<Rightarrow> []
      | Some start_ms \<Rightarrow>
          (case end_time point of
             None \<Rightarrow> []
           | Some end_ms \<Rightarrow>
               segment_events env base_name output_dir total_segments i start_ms end_ms))"

definition encoder_outcome ::
  "'f environment \<Rightarrow> string \<Rightarrow> string \<Rightarrow> nat \<Rightarrow> SplitPoint \<Rightarrow> string option option" where
  "encoder_outcome env base_name output_dir i point =
     (case start_time point of
        None \<Rightarrow> None
      | Some start_ms \<Rightarrow>
          (case end_time point of
             None \<Rightarrow> None
           | Some end_ms \<Rightarrow>
               Some (write_segment env start_ms end_ms
                       (path_join env output_dir (output_filename base_name i))
                       (temp_audiofile env output_dir i))))"

text \<open>
  The write \<open>split_points[-1].end_time = int(video.duration * 1000)\<close>, made when the
  last object of the list passed in has no end time. \<open>heap\<close> is the table's list, which
  owns the objects; \<open>split_points\<close> are the positions of the objects passed in.
\<close>

definition resolve_last_end ::
  "'f environment \<Rightarrow> 'f VideoFileClip \<Rightarrow> SplitPoint list \<Rightarrow> nat list \<Rightarrow> SplitPoint list" where
  "resolve_last_end env video heap split_points =
     (if split_points \<noteq> [] \<and> end_time (heap ! last split_points) = None
      then heap[last split_points :=
             (heap ! last split_points)
               \<lparr>end_time := Some (int_of_float env (times_1000 env (clip_duration video)))\<rparr>]
      else heap)"

text \<open>
  \<open>split_video\<close>: the trace of the run and the table's list after it. \<open>not self.video_path\<close>
  holds for \<open>None\<close> and for the empty string.
\<close>

definition falsy :: "string option \<Rightarrow> bool" where
  "falsy p = (case p of None \<Rightarrow> True | Some s \<Rightarrow> s = [])"

definition split_video ::
  "'f environment \<Rightarrow> string option \<Rightarrow> string option \<Rightarrow> SplitPoint list \<Rightarrow> nat list
     \<Rightarrow> event list \<times> SplitPoint list" where
  "split_video env video_path output_dir heap split_points =
     (case (video_path, output_dir) of
        (Some path, Some out_dir) \<Rightarrow>
          if falsy video_path \<or> falsy output_dir
          then ([ErrorOccurred ''Video path or output directory not set''], heap)
          else if split_points = []
          then ([ErrorOccurred ''No split points defined''], heap)
          else
            (case open_clip env path of
               Inl msg \<Rightarrow> ([ErrorOccurred (''Error splitting video: '' @ msg)], heap)
             | Inr video \<Rightarrow>
                 (let heap' = resolve_last_end env video heap split_points;
                      total_segments = length split_points;
                      (evs, exc) = process_points env (base_name_of env path) out_dir
                                     total_segments 0 (map (\<lambda>r. heap' ! r) split_points)
                  in case exc of
                       Some msg \<Rightarrow>
                         (ClipOpened path # evs @
                            [ErrorOccurred (''Error splitting video: '' @ msg)], heap')
                     | None \<Rightarrow>
                         (ClipOpened path # evs @
                            [ClipClosed, ProgressUpdated total_segments total_segments,
                             SplittingCompleted], heap')))
      | _ \<Rightarrow> ([ErrorOccurred ''Video path or output directory not set''], heap))"

record 'f video_info =
  info_duration :: 'f
  info_width :: int
  info_height :: int
  info_fps :: 'f
  info_filename :: string

definition get_video_info ::
  "'f environment \<Rightarrow> string option \<Rightarrow> event list \<times> 'f video_info option" where
  "get_video_info env video_path =
     (case video_path of
        None \<Rightarrow> ([], None)
      | Some path \<Rightarrow>
          if path = [] then ([], None)
          else
            (case open_clip env path of
               Inl msg \<Rightarrow> ([ErrorOccurred (''Error getting video info: '' @ msg)], None)
             | Inr video \<Rightarrow>
                 ([ClipOpened path, ClipClosed],
                  Some \<lparr>info_duration = times_1000 env (clip_duration video),
                        info_width = clip_w video,
                        info_height = clip_h video,
                        info_fps = clip_fps video,
                        info_filename = file_name_of env path\<rparr>)))"

text \<open>
  A sample environment over integer seconds: a clip of 90 seconds, an encoder that
  fails on every segment starting at \<open>fail_at\<close> milliseconds, POSIX-style paths.
\<close>

definition sample_env :: "int \<Rightarrow> int environment" where
  "sample_env fail_at =
     \<lparr>open_clip = (\<lambda>p. if p = ''missing.mp4'' then Inl ''file not found''
                        else Inr \<lparr>clip_duration = 90, clip_w = 640, clip_h = 480, clip_fps = 25\<rparr>),
      times_1000 = (\<lambda>x. x * 1000),
      int_of_float = (\<lambda>x. x),
      write_segment = (\<lambda>start_ms end_ms output_path temp.
                         if start_ms = fail_at then Some ''encoder failed'' else None),
      base_name_of = (\<lambda>p. takeWhile (\<lambda>c. c \<noteq> CHR ''.'') p),
      file_name_of = (\<lambda>p. p),
      path_join = (\<lambda>d f. d @ ''/'' @ f)\<rparr>"

section \<open>Digits and literals\<close>

lemma digit_char_is_digit: "d < 10 \<Longrightarrow> is_digit (digit_char d)"
  by (simp add: is_digit_def digit_char_def)

lemma digit_val_digit_char: "d < 10 \<Longrightarrow> digit_val (digit_char d) = d"
  by (simp add: digit_val_def digit_char_def)

lemma is_digit_not_space: "is_digit c \<Longrightarrow> \<not> py_isspace c"
  by (auto simp: is_digit_def py_isspace_def)

lemma is_digit_not_sep:
  "is_digit c \<Longrightarrow>
     c \<noteq> CHR '':'' \<and> c \<noteq> CHR ''.'' \<and> c \<noteq> CHR ''-'' \<and> c \<noteq> CHR ''+'' \<and> c \<noteq> CHR ''_''"
  by (auto simp: is_digit_def)

lemma str_nat_digits: "c \<in> set (str_nat n) \<Longrightarrow> is_digit c"
proof (induction n arbitrary: c rule: str_nat.induct)
  case (1 n)
  show ?case
  proof (cases "n < 10")
    case True
    with "1.prems" show ?thesis
      by (simp add: str_nat.simps [of n] digit_char_is_digit)
  next
    case False
    with "1.prems" "1.IH" show ?thesis
      by (auto simp: str_nat.simps [of n] digit_char_is_digit)
  qed
qed

lemma str_nat_nonempty: "str_nat n \<noteq> []"
  by (subst str_nat.simps) simp

lemma parse_digits_append:
  "\<forall>c \<in> set ds. is_digit c \<Longrightarrow>
   parse_digits acc (ds @ es) = parse_digits (the (parse_digits acc ds)) es"
  by (induction ds arbitrary: acc) auto

lemma parse_digits_zeros: "parse_digits 0 (replicate k CHR ''0'') = Some 0"
  by (induction k) (auto simp: is_digit_def digit_val_def)

lemma parse_digits_str_nat: "parse_digits 0 (str_nat n) = Some n"
proof (induction n rule: str_nat.induct)
  case (1 n)
  show ?case
  proof (cases "n < 10")
    case True
    then show ?thesis
      by (simp add: str_nat.simps [of n] digit_char_is_digit digit_val_digit_char)
  next
    case False
    have d: "\<forall>c \<in> set (str_nat (n div 10)). is_digit c"
      by (simp add: str_nat_digits)
    have "parse_digits 0 (str_nat n) =
            parse_digits 0 (str_nat (n div 10) @ [digit_char (n mod 10)])"
      using False by (subst str_nat.simps) simp
    also have "\<dots> = parse_digits (n div 10) [digit_char (n mod 10)]"
      using False "1.IH" by (simp add: parse_digits_append [OF d])
    also have "\<dots> = Some n"
      by (simp add: digit_char_is_digit digit_val_digit_char)
    finally show ?thesis .
  qed
qed

lemma zero_pad_digits:
  "\<forall>c \<in> set ds. is_digit c \<Longrightarrow> c \<in> set (zero_pad w ds) \<Longrightarrow> is_digit c"
  by (auto simp: zero_pad_def is_digit_def)

lemma zero_pad_nonempty: "ds \<noteq> [] \<Longrightarrow> zero_pad w ds \<noteq> []"
  by (simp add: zero_pad_def)

lemma parse_digits_zero_pad: "parse_digits 0 (zero_pad w (str_nat n)) = Some n"
proof -
  have z: "\<forall>c \<in> set (replicate (w - length (str_nat n)) CHR ''0''). is_digit c"
    by (simp add: is_digit_def)
  show ?thesis
    unfolding zero_pad_def
    by (simp add: parse_digits_append [OF z] parse_digits_zeros parse_digits_str_nat)
qed

lemma py_strip_digits:
  assumes "\<forall>c \<in> set ds. is_digit c"
  shows "py_strip ds = ds"
proof (cases ds rule: rev_cases)
  case Nil
  then show ?thesis by (simp add: py_strip_def)
next
  case (snoc ys y)
  show ?thesis
  proof (cases ds)
    case Nil
    then show ?thesis by (simp add: py_strip_def)
  next
    case (Cons x xs)
    from assms Cons have "\<not> py_isspace x" by (simp add: is_digit_not_space)
    then have 1: "dropWhile py_isspace ds = ds" using Cons by simp
    from assms snoc have "\<not> py_isspace y" by (simp add: is_digit_not_space)
    then have 2: "dropWhile py_isspace (rev ds) = rev ds" using snoc by simp
    show ?thesis by (simp add: py_strip_def 1 2)
  qed
qed

text \<open>A non-empty string of digits is a literal, whatever its leading zeros.\<close>

lemma py_int_digits:
  assumes d: "\<forall>c \<in> set ds. is_digit c" and ne: "ds \<noteq> []"
  shows "py_int ds = map_option int (parse_digits 0 ds)"
proof -
  obtain c cs where cs: "ds = c # cs" using ne by (cases ds) auto
  with d have c: "is_digit c" by simp
  have "py_strip ds = c # cs"
    using py_strip_digits [OF d] cs by simp
  then show ?thesis
    using c cs is_digit_not_sep [OF c] by (simp add: py_int_def py_digits_def)
qed


lemma format_d_digits: "0 \<le> n \<Longrightarrow> \<forall>c \<in> set (format_d w n). is_digit c"
  using zero_pad_digits str_nat_digits by (fastforce simp: format_d_def)

lemma py_int_format_d:
  assumes "0 \<le> n"
  shows "py_int (format_d w n) = Some n"
proof -
  let ?ds = "zero_pad w (str_nat (nat n))"
  have d: "\<forall>c \<in> set ?ds. is_digit c"
    using zero_pad_digits str_nat_digits by blast
  have ne: "?ds \<noteq> []" by (simp add: zero_pad_nonempty str_nat_nonempty)
  have "py_int ?ds = Some n"
    using assms by (simp add: py_int_digits [OF d ne] parse_digits_zero_pad)
  then show ?thesis
    using assms by (simp add: format_d_def)
qed

lemma py_split_no_sep: "sep \<notin> set a \<Longrightarrow> py_split sep a = [a]"
  by (induction a) auto

lemma py_split_append: "sep \<notin> set a \<Longrightarrow> py_split sep (a @ sep # b) = a # py_split sep b"
  by (induction a) auto



lemma time_recompose:
  fixes ms :: int
  shows "((ms div 1000 div 60 div 60) * 3600 + (ms div 1000 div 60 mod 60) * 60
            + ms div 1000 mod 60) * 1000 + ms mod 1000 = ms"
proof -
  define s where "s = ms div 1000"
  define m where "m = s div 60"
  have 1: "ms = s * 1000 + ms mod 1000" by (simp add: s_def)
  have 2: "s = m * 60 + s mod 60" by (simp add: m_def)
  have 3: "m = (m div 60) * 60 + m mod 60" by simp
  have "(m div 60) * 3600 + (m mod 60) * 60 + s mod 60 = s"
    using 2 3 by linarith
  then show ?thesis using 1 by (simp add: s_def [symmetric] m_def [symmetric])
qed

section \<open>Formatting and parsing\<close>

text \<open>
  Claim C3. For every non-negative integer number of milliseconds \<open>m\<close>, parsing the
  text that \<open>format_time\<close> produces for \<open>m\<close> gives \<open>m\<close> back. The hours field has no
  upper bound, so every non-negative \<open>m\<close> has a text.
\<close>

theorem parse_format_roundtrip:
  assumes "0 \<le> m"
  shows "parse_time (format_time (Some m)) = Inr m"
proof -
  define hs where "hs = format_d 2 (m div 1000 div 60 div 60)"
  define ms where "ms = format_d 2 (m div 1000 div 60 mod 60)"
  define ss where "ss = format_d 2 (m div 1000 mod 60)"
  define ls where "ls = format_d 3 (m mod 1000)"
  have h0: "0 \<le> m div 1000 div 60 div 60"
    using assms by (simp add: pos_imp_zdiv_nonneg_iff)
  have dh: "\<forall>c \<in> set hs. is_digit c" unfolding hs_def by (rule format_d_digits [OF h0])
  have dm: "\<forall>c \<in> set ms. is_digit c" unfolding ms_def by (rule format_d_digits) simp
  have ds: "\<forall>c \<in> set ss. is_digit c" unfolding ss_def by (rule format_d_digits) simp
  have dl: "\<forall>c \<in> set ls. is_digit c" unfolding ls_def by (rule format_d_digits) simp
  have nh: "CHR '':'' \<notin> set hs" using dh is_digit_not_sep by blast
  have nm: "CHR '':'' \<notin> set ms" using dm is_digit_not_sep by blast
  have ns: "CHR '':'' \<notin> set ss" "CHR ''.'' \<notin> set ss" using ds is_digit_not_sep by blast+
  have nl: "CHR '':'' \<notin> set ls" "CHR ''.'' \<notin> set ls" using dl is_digit_not_sep by blast+
  have f: "format_time (Some m) = hs @ CHR '':'' # ms @ CHR '':'' # (ss @ CHR ''.'' # ls)"
    by (simp add: format_time_def Let_def hs_def ms_def ss_def ls_def)
  have nr: "CHR '':'' \<notin> set (ss @ CHR ''.'' # ls)" using ns nl by simp
  have s1: "py_split CHR '':'' (format_time (Some m)) = [hs, ms, ss @ CHR ''.'' # ls]"
    unfolding f
    by (simp add: py_split_append [OF nh] py_split_append [OF nm] py_split_no_sep [OF nr])
  have s2: "py_split CHR ''.'' (ss @ CHR ''.'' # ls) = [ss, ls]"
    by (simp add: py_split_append [OF ns(2)] py_split_no_sep [OF nl(2)])
  have ih: "py_int hs = Some (m div 1000 div 60 div 60)"
    unfolding hs_def by (rule py_int_format_d [OF h0])
  have im: "py_int ms = Some (m div 1000 div 60 mod 60)"
    unfolding ms_def by (rule py_int_format_d) simp
  have isec: "py_int ss = Some (m div 1000 mod 60)"
    unfolding ss_def by (rule py_int_format_d) simp
  have il: "py_int ls = Some (m mod 1000)"
    unfolding ls_def by (rule py_int_format_d) simp
  show ?thesis
    unfolding parse_time_def s1 using time_recompose [of m]
    by (simp add: s2 ih im isec il)
qed

theorem parse_format_roundtrip_witness:
  "(0::int) \<le> 3723004 \<and> parse_time (format_time (Some 3723004)) = Inr 3723004"
  using parse_format_roundtrip [of 3723004] by simp

section \<open>What the parser accepts\<close>




































section \<open>Adding a split point\<close>

lemma add_split_point_nonempty:
  assumes "sps \<noteq> []"
  shows "add_split_point t sps = sps @ [new_SplitPoint (end_time (last sps)) (Some t)]"
proof -
  let ?new = "new_SplitPoint (end_time (last sps)) (Some t)"
  have l: "length sps - Suc 0 < length sps" using assms by (cases sps) auto
  have n: "(sps @ [?new]) ! (length sps - Suc 0) = last sps"
    using assms l by (simp add: nth_append last_conv_nth)
  have "(sps @ [?new])[length sps - Suc 0 := (last sps)\<lparr>end_time := end_time (last sps)\<rparr>]
          = sps @ [?new]"
    using n l by (simp add: list_update_same_conv)
  then show ?thesis
    using assms n by (simp add: add_split_point_def Let_def)
qed

text \<open>
  A second split point does not reopen the list: the first interval keeps its end, and
  the new interval runs from that end to the new position.
\<close>

theorem add_split_point_counterexample:
  "add_split_point 60000 [new_SplitPoint (Some 0) (Some 30000)] =
     [new_SplitPoint (Some 0) (Some 30000), new_SplitPoint (Some 30000) (Some 60000)] \<and>
   add_split_point 60000 [new_SplitPoint (Some 0) (Some 30000)] \<noteq>
     [new_SplitPoint (Some 0) (Some 60000), new_SplitPoint (Some 60000) None]"
  by (simp add: add_split_point_def new_SplitPoint_def Let_def)

text \<open>
  Claim C1, as the code has it. On the empty list \<open>add_split_point\<close> appends the
  interval from 0 to the given position. On a non-empty list it leaves every existing
  interval as it was and appends the interval from the previous last interval's end to
  the given position; the end of the new last interval is the given position.
\<close>

theorem add_split_point_appends:
  "add_split_point t [] = [new_SplitPoint (Some 0) (Some t)] \<and>
   (sps \<noteq> [] \<longrightarrow>
      add_split_point t sps = sps @ [new_SplitPoint (end_time (last sps)) (Some t)])"
  using add_split_point_nonempty by (simp add: add_split_point_def)

theorem add_split_point_appends_witness:
  "add_split_point 30000 [] = [new_SplitPoint (Some 0) (Some 30000)] \<and>
   [new_SplitPoint (Some 0) (Some 30000)] \<noteq> [] \<and>
   add_split_point 60000 [new_SplitPoint (Some 0) (Some 30000)] =
     [new_SplitPoint (Some 0) (Some 30000), new_SplitPoint (Some 30000) (Some 60000)]"
  using add_split_point_appends [of 30000 "[]"]
        add_split_point_appends [of 60000 "[new_SplitPoint (Some 0) (Some 30000)]"]
  by (simp add: new_SplitPoint_def)

section \<open>Editing a cell\<close>

text \<open>
  Claim C9. For every row, column and text, when the text does not parse, the
  \<open>ValueError\<close> is handled inside \<open>cell_edited\<close> and the list of split points, with
  every start, end and selection flag, is what it was before the call.
\<close>

theorem cell_edited_parse_failure:
  "parse_time time_str = Inl e \<Longrightarrow> cell_edited row column time_str split_points = split_points"
  by (simp add: cell_edited_def)

theorem cell_edited_parse_failure_witness:
  "parse_time ''12:30'' = Inl (ValueError ''Invalid time format: 12:30'') \<and>
   cell_edited 0 1 ''12:30'' [new_SplitPoint (Some 0) (Some 30000)] =
     [new_SplitPoint (Some 0) (Some 30000)]"
proof -
  have p: "parse_time ''12:30'' = Inl (ValueError ''Invalid time format: 12:30'')"
    by code_simp
  show ?thesis
    using p cell_edited_parse_failure [OF p, of 0 1 "[new_SplitPoint (Some 0) (Some 30000)]"]
    by simp
qed

section \<open>The gapless chain\<close>

lemma gapless_chain_nth:
  "gapless_chain sps = (\<forall>j. Suc j < length sps \<longrightarrow> linked (sps ! j) (sps ! Suc j))"
proof (induction sps rule: gapless_chain.induct)
  case 1
  show ?case by simp
next
  case (2 p)
  show ?case by simp
next
  case (3 p q ps)
  show ?case
  proof
    assume a: "gapless_chain (p # q # ps)"
    show "\<forall>j. Suc j < length (p # q # ps) \<longrightarrow> linked ((p # q # ps) ! j) ((p # q # ps) ! Suc j)"
    proof (intro allI impI)
      fix j assume j: "Suc j < length (p # q # ps)"
      show "linked ((p # q # ps) ! j) ((p # q # ps) ! Suc j)"
      proof (cases j)
        case 0
        with a show ?thesis by simp
      next
        case (Suc k)
        with a j 3 show ?thesis by simp
      qed
    qed
  next
    assume a: "\<forall>j. Suc j < length (p # q # ps) \<longrightarrow> linked ((p # q # ps) ! j) ((p # q # ps) ! Suc j)"
    have "linked p q" using a [rule_format, of 0] by simp
    moreover have "\<forall>j. Suc j < length (q # ps) \<longrightarrow> linked ((q # ps) ! j) ((q # ps) ! Suc j)"
    proof (intro allI impI)
      fix j assume "Suc j < length (q # ps)"
      then show "linked ((q # ps) ! j) ((q # ps) ! Suc j)"
        using a [rule_format, of "Suc j"] by simp
    qed
    ultimately show "gapless_chain (p # q # ps)" using 3 by simp
  qed
qed

lemma linked_same: "end_time p = start_time q \<Longrightarrow> linked p q"
  by (simp add: linked_def split: option.splits)

lemma gapless_add_split_point:
  assumes "gapless_chain sps"
  shows "gapless_chain (add_split_point t sps)"
proof (cases "sps = []")
  case True
  then show ?thesis by (simp add: add_split_point_def)
next
  case False
  let ?new = "new_SplitPoint (end_time (last sps)) (Some t)"
  have "\<forall>j. Suc j < length (sps @ [?new]) \<longrightarrow>
          linked ((sps @ [?new]) ! j) ((sps @ [?new]) ! Suc j)"
  proof (intro allI impI)
    fix j assume j: "Suc j < length (sps @ [?new])"
    show "linked ((sps @ [?new]) ! j) ((sps @ [?new]) ! Suc j)"
    proof (cases "Suc j < length sps")
      case True
      then show ?thesis
        using assms by (simp add: gapless_chain_nth nth_append)
    next
      case f: False
      with j have e: "Suc j = length sps" by simp
      then have "j = length sps - 1" by simp
      then have "sps ! j = last sps"
        using False by (simp add: last_conv_nth)
      then show ?thesis
        using e by (simp add: nth_append linked_same new_SplitPoint_def)
    qed
  qed
  then show ?thesis
    using False by (simp add: add_split_point_nonempty gapless_chain_nth)
qed

lemma linked_fields:
  "end_time p' = end_time p \<Longrightarrow> start_time q' = start_time q \<Longrightarrow> linked p' q' = linked p q"
  by (simp add: linked_def split: option.splits)

lemma gapless_toggle_selection:
  assumes "gapless_chain sps"
  shows "gapless_chain (toggle_selection row checked sps)"
proof (cases "row < length sps")
  case False
  then show ?thesis using assms by (simp add: toggle_selection_def)
next
  case True
  let ?sps' = "sps[row := (sps ! row)\<lparr>selected := checked\<rparr>]"
  have e: "\<And>i. i < length sps \<Longrightarrow> end_time (?sps' ! i) = end_time (sps ! i)"
    using True by (simp add: nth_list_update)
  have s: "\<And>i. i < length sps \<Longrightarrow> start_time (?sps' ! i) = start_time (sps ! i)"
    using True by (simp add: nth_list_update)
  have "\<forall>j. Suc j < length ?sps' \<longrightarrow> linked (?sps' ! j) (?sps' ! Suc j)"
  proof (intro allI impI)
    fix j assume j: "Suc j < length ?sps'"
    then have "linked (?sps' ! j) (?sps' ! Suc j) = linked (sps ! j) (sps ! Suc j)"
      by (intro linked_fields e s) simp_all
    then show "linked (?sps' ! j) (?sps' ! Suc j)"
      using assms j by (simp add: gapless_chain_nth)
  qed
  then show ?thesis
    using True by (simp add: toggle_selection_def gapless_chain_nth)
qed

lemma length_cell_edited: "length (cell_edited row column time_str sps) = length sps"
  by (simp add: cell_edited_def Let_def split: sum.splits)

lemma cell_edited_start_fields:
  assumes "parse_time time_str = Inr v" and "row < length sps" and "i < length sps"
  shows "start_time (cell_edited row 1 time_str sps ! i) =
           (if i = row then Some v else start_time (sps ! i))"
    and "end_time (cell_edited row 1 time_str sps ! i) =
           (if 0 < row \<and> i = row - 1 then Some v else end_time (sps ! i))"
  using assms by (auto simp: cell_edited_def Let_def nth_list_update)

lemma cell_edited_end_fields:
  assumes "parse_time time_str = Inr v" and "row < length sps" and "i < length sps"
  shows "end_time (cell_edited row 2 time_str sps ! i) =
           (if i = row then Some v else end_time (sps ! i))"
    and "start_time (cell_edited row 2 time_str sps ! i) =
           (if Suc row < length sps \<and> i = Suc row then Some v else start_time (sps ! i))"
  using assms by (auto simp: cell_edited_def Let_def nth_list_update)

lemma cell_edited_unchanged:
  "row \<ge> length sps \<or> column \<notin> {1, 2} \<or> isl (parse_time time_str) \<Longrightarrow>
     cell_edited row column time_str sps = sps"
  by (auto simp: cell_edited_def split: sum.splits)

lemma gapless_cell_edited:
  assumes g: "gapless_chain sps"
  shows "gapless_chain (cell_edited row column time_str sps)"
proof (cases "row \<ge> length sps \<or> column \<notin> {1, 2} \<or> isl (parse_time time_str)")
  case True
  then show ?thesis using g by (simp add: cell_edited_unchanged)
next
  case False
  then obtain v where p: "parse_time time_str = Inr v"
    by (cases "parse_time time_str") auto
  from False have r: "row < length sps" and c: "column = 1 \<or> column = 2" by auto
  let ?sps' = "cell_edited row column time_str sps"
  have "\<forall>j. Suc j < length ?sps' \<longrightarrow> linked (?sps' ! j) (?sps' ! Suc j)"
  proof (intro allI impI)
    fix j assume "Suc j < length ?sps'"
    then have j: "Suc j < length sps" "j < length sps" by (simp_all add: length_cell_edited)
    have old: "linked (sps ! j) (sps ! Suc j)"
      using g j by (simp add: gapless_chain_nth)
    from c show "linked (?sps' ! j) (?sps' ! Suc j)"
    proof
      assume c1: "column = 1"
      show ?thesis
      proof (cases "Suc j = row")
        case True
        then show ?thesis
          unfolding c1
          using cell_edited_start_fields [OF p r j(1)] cell_edited_start_fields [OF p r j(2)]
          by (auto intro: linked_same)
      next
        case False
        then have "linked (?sps' ! j) (?sps' ! Suc j) = linked (sps ! j) (sps ! Suc j)"
          unfolding c1
          using cell_edited_start_fields [OF p r j(1)] cell_edited_start_fields [OF p r j(2)]
          by (intro linked_fields) auto
        then show ?thesis using old by simp
      qed
    next
      assume c2: "column = 2"
      show ?thesis
      proof (cases "j = row")
        case True
        then show ?thesis
          unfolding c2
          using cell_edited_end_fields [OF p r j(1)] cell_edited_end_fields [OF p r j(2)] j
          by (auto intro: linked_same)
      next
        case False
        then have "linked (?sps' ! j) (?sps' ! Suc j) = linked (sps ! j) (sps ! Suc j)"
          unfolding c2
          using cell_edited_end_fields [OF p r j(1)] cell_edited_end_fields [OF p r j(2)]
          by (intro linked_fields) auto
        then show ?thesis using old by simp
      qed
    qed
  qed
  then show ?thesis by (simp add: gapless_chain_nth)
qed

lemma gapless_apply_table_op:
  "gapless_chain sps \<Longrightarrow> gapless_chain (apply_table_op op sps)"
  by (cases op) (simp_all add: gapless_add_split_point gapless_cell_edited gapless_toggle_selection)

lemma gapless_foldl:
  "gapless_chain sps \<Longrightarrow> gapless_chain (foldl (\<lambda>sps op. apply_table_op op sps) sps ops)"
  by (induction ops arbitrary: sps) (simp_all add: gapless_apply_table_op)


text \<open>The start of the first interval.\<close>

lemma first_start_add_split_point:
  assumes "sps = [] \<or> start_time (hd sps) = Some 0"
  shows "add_split_point t sps \<noteq> [] \<and> start_time (hd (add_split_point t sps)) = Some 0"
proof (cases "sps = []")
  case True
  then show ?thesis by (simp add: add_split_point_def new_SplitPoint_def)
next
  case False
  then show ?thesis using assms by (simp add: add_split_point_nonempty)
qed

lemma first_start_toggle_selection:
  "(toggle_selection row checked sps = []) = (sps = []) \<and>
   start_time (hd (toggle_selection row checked sps)) = start_time (hd sps)"
  by (cases sps; cases row) (simp_all add: toggle_selection_def)

lemma first_start_cell_edited:
  assumes "\<not> edits_first_start (CellEdited row column time_str)"
  shows "(cell_edited row column time_str sps = []) = (sps = []) \<and>
         start_time (hd (cell_edited row column time_str sps)) = start_time (hd sps)"
proof (cases "row \<ge> length sps \<or> column \<notin> {1, 2} \<or> isl (parse_time time_str)")
  case True
  then show ?thesis by (simp add: cell_edited_unchanged)
next
  case False
  then obtain v where p: "parse_time time_str = Inr v"
    by (cases "parse_time time_str") auto
  from False have r: "row < length sps" and c: "column = 1 \<or> column = 2" by auto
  then have ne: "sps \<noteq> []" and z: "0 < length sps" by auto
  have ne': "cell_edited row column time_str sps \<noteq> []"
    using ne length_cell_edited [of row column time_str sps] by (metis length_0_conv)
  from assms p have nz: "column = 1 \<Longrightarrow> row \<noteq> 0" by simp
  have "start_time (cell_edited row column time_str sps ! 0) = start_time (sps ! 0)"
    using c
  proof
    assume c1: "column = 1"
    show ?thesis
      unfolding c1 using cell_edited_start_fields(1) [OF p r z] nz [OF c1] by simp
  next
    assume c2: "column = 2"
    show ?thesis
      unfolding c2 using cell_edited_end_fields(2) [OF p r z] by simp
  qed
  then show ?thesis
    using ne ne' by (simp add: hd_conv_nth)
qed

lemma first_start_apply_table_op:
  assumes "\<not> edits_first_start op" and "sps = [] \<or> start_time (hd sps) = Some 0"
  shows "apply_table_op op sps = [] \<or> start_time (hd (apply_table_op op sps)) = Some 0"
proof (cases op)
  case (AddSplitPoint t)
  then show ?thesis using first_start_add_split_point [OF assms(2)] by simp
next
  case (CellEdited row column time_str)
  then show ?thesis
    using first_start_cell_edited [of row column time_str sps] assms by auto
next
  case (ToggleSelection row checked)
  then show ?thesis
    using first_start_toggle_selection [of row checked sps] assms(2) by auto
qed

lemma first_start_foldl:
  "\<forall>op \<in> set ops. \<not> edits_first_start op \<Longrightarrow>
   sps = [] \<or> start_time (hd sps) = Some 0 \<Longrightarrow>
   foldl (\<lambda>sps op. apply_table_op op sps) sps ops = [] \<or>
   start_time (hd (foldl (\<lambda>sps op. apply_table_op op sps) sps ops)) = Some 0"
proof (induction ops arbitrary: sps)
  case Nil
  then show ?case by simp
next
  case (Cons op ops)
  have "apply_table_op op sps = [] \<or> start_time (hd (apply_table_op op sps)) = Some 0"
    using Cons.prems by (intro first_start_apply_table_op) simp_all
  then show ?case
    using Cons.IH [of "apply_table_op op sps"] Cons.prems(1) by simp
qed

lemma edit_end_propagates:
  assumes "parse_time time_str = Inr v" and "Suc j < length sps"
  shows "start_time (cell_edited j 2 time_str sps ! Suc j) = Some v"
proof -
  have j: "j < length sps" using assms(2) by simp
  show ?thesis
    using cell_edited_end_fields(2) [OF assms(1) j assms(2)] assms(2) by simp
qed

lemma edit_start_propagates:
  assumes "parse_time time_str = Inr v" and "0 < j" and "j < length sps"
  shows "end_time (cell_edited j 1 time_str sps ! (j - 1)) = Some v"
proof -
  have j: "j - 1 < length sps" using assms(3) by simp
  show ?thesis
    using cell_edited_start_fields(2) [OF assms(1) assms(3) j] assms(2) by simp
qed

text \<open>
  An edit of the start cell of the first row moves the start of the first interval
  away from 0.
\<close>

theorem first_start_counterexample:
  "parse_time ''00:00:00.500'' = Inr 500 \<and>
   run_table_ops [AddSplitPoint 1000, CellEdited 0 1 ''00:00:00.500''] =
     [\<lparr>start_time = Some 500, end_time = Some 1000, selected = True\<rparr>] \<and>
   start_time (hd (run_table_ops [AddSplitPoint 1000, CellEdited 0 1 ''00:00:00.500'']))
     \<noteq> Some 0"
  by code_simp

text \<open>
  Claim C7, as the code has it. After any sequence of table operations from the empty
  list the chain is gapless, and each operation keeps a gapless chain gapless. The
  first interval starts at 0 as long as no operation of the sequence is a parsed edit
  of the start cell of the first row. An edit of the end of a row that is not the last
  sets the start of the next row to the same value, and an edit of the start of a row
  after the first sets the end of the previous row to the same value.
\<close>

theorem gapless_chain_preserved:
  "gapless_chain (run_table_ops ops) \<and>
   (gapless_chain sps \<longrightarrow> gapless_chain (apply_table_op op sps)) \<and>
   ((\<forall>op \<in> set ops. \<not> edits_first_start op) \<longrightarrow> run_table_ops ops \<noteq> [] \<longrightarrow>
      start_time (hd (run_table_ops ops)) = Some 0) \<and>
   (parse_time time_str = Inr v \<longrightarrow> Suc j < length sps \<longrightarrow>
      start_time (cell_edited j 2 time_str sps ! Suc j) = Some v) \<and>
   (parse_time time_str = Inr v \<longrightarrow> 0 < j \<longrightarrow> j < length sps \<longrightarrow>
      end_time (cell_edited j 1 time_str sps ! (j - 1)) = Some v)"
proof (intro conjI impI)
  show "gapless_chain (run_table_ops ops)"
    unfolding run_table_ops_def by (rule gapless_foldl) simp
next
  assume "gapless_chain sps"
  then show "gapless_chain (apply_table_op op sps)" by (rule gapless_apply_table_op)
next
  assume "\<forall>op \<in> set ops. \<not> edits_first_start op" and "run_table_ops ops \<noteq> []"
  then show "start_time (hd (run_table_ops ops)) = Some 0"
    unfolding run_table_ops_def using first_start_foldl [of ops "[]"] by simp
next
  assume "parse_time time_str = Inr v" and "Suc j < length sps"
  then show "start_time (cell_edited j 2 time_str sps ! Suc j) = Some v"
    by (rule edit_end_propagates)
next
  assume "parse_time time_str = Inr v" and "0 < j" and "j < length sps"
  then show "end_time (cell_edited j 1 time_str sps ! (j - 1)) = Some v"
    by (rule edit_start_propagates)
qed

theorem gapless_chain_preserved_witness:
  "gapless_chain (run_table_ops [AddSplitPoint 30000, AddSplitPoint 60000, AddSplitPoint 90000]) \<and>
   gapless_chain (apply_table_op (CellEdited 1 2 ''00:00:45.000'')
     (run_table_ops [AddSplitPoint 30000, AddSplitPoint 60000, AddSplitPoint 90000])) \<and>
   list_all (\<lambda>op. \<not> edits_first_start op)
     [AddSplitPoint 30000, AddSplitPoint 60000, AddSplitPoint 90000] \<and>
   run_table_ops [AddSplitPoint 30000, AddSplitPoint 60000, AddSplitPoint 90000] \<noteq> [] \<and>
   start_time (hd (run_table_ops [AddSplitPoint 30000, AddSplitPoint 60000, AddSplitPoint 90000]))
     = Some 0 \<and>
   parse_time ''00:00:45.000'' = Inr 45000 \<and>
   Suc 1 < length (run_table_ops [AddSplitPoint 30000, AddSplitPoint 60000, AddSplitPoint 90000]) \<and>
   start_time (cell_edited 1 2 ''00:00:45.000''
     (run_table_ops [AddSplitPoint 30000, AddSplitPoint 60000, AddSplitPoint 90000]) ! Suc 1)
     = Some 45000 \<and>
   end_time (cell_edited 1 1 ''00:00:45.000''
     (run_table_ops [AddSplitPoint 30000, AddSplitPoint 60000, AddSplitPoint 90000]) ! (1 - 1))
     = Some 45000"
proof -
  let ?ops = "[AddSplitPoint 30000, AddSplitPoint 60000, AddSplitPoint 90000]"
  note t = gapless_chain_preserved
    [of ?ops "run_table_ops ?ops" "CellEdited 1 2 ''00:00:45.000''" "''00:00:45.000''" 45000 1]
  have g: "gapless_chain (run_table_ops ?ops)" by (rule t [THEN conjunct1])
  have a: "gapless_chain (apply_table_op (CellEdited 1 2 ''00:00:45.000'') (run_table_ops ?ops))"
    by (rule t [THEN conjunct2, THEN conjunct1, THEN mp, OF g])
  have e: "\<forall>op \<in> set ?ops. \<not> edits_first_start op" by simp
  have n: "run_table_ops ?ops \<noteq> []" by code_simp
  have f: "start_time (hd (run_table_ops ?ops)) = Some 0"
    by (rule t [THEN conjunct2, THEN conjunct2, THEN conjunct1, THEN mp, THEN mp, OF e n])
  have p: "parse_time ''00:00:45.000'' = Inr 45000" by code_simp
  have l: "Suc 1 < length (run_table_ops ?ops)" by code_simp
  have l0: "(0::nat) < 1" by simp
  have l1: "1 < length (run_table_ops ?ops)" using l by simp
  have pe: "start_time (cell_edited 1 2 ''00:00:45.000'' (run_table_ops ?ops) ! Suc 1) = Some 45000"
    by (rule t [THEN conjunct2, THEN conjunct2, THEN conjunct2, THEN conjunct1,
                THEN mp, THEN mp, OF p l])
  have ps: "end_time (cell_edited 1 1 ''00:00:45.000'' (run_table_ops ?ops) ! (1 - 1)) = Some 45000"
    by (rule t [THEN conjunct2, THEN conjunct2, THEN conjunct2, THEN conjunct2,
                THEN mp, THEN mp, THEN mp, OF p l0 l1])
  have e': "list_all (\<lambda>op. \<not> edits_first_start op) ?ops" by simp
  show ?thesis
    by (intro conjI) (rule g a e' n f p l pe ps)+
qed

section \<open>The export loop\<close>

lemma upt_shift: "map f [0..<Suc n] = f 0 # map (\<lambda>k. f (Suc k)) [0..<n]"
proof -
  have "[0..<Suc n] = 0 # map Suc [0..<n]"
    by (simp add: upt_conv_Cons map_Suc_upt del: upt_Suc)
  then show ?thesis
    by (simp only: list.map map_map comp_def)
qed

lemma process_points_completed:
  "process_points env b od n i ps = (evs, None) \<Longrightarrow>
     evs = concat (map (\<lambda>k. point_events env b od n (i + k) (ps ! k)) [0..<length ps]) \<and>
     list_all (\<lambda>p. start_time p \<noteq> None \<and> end_time p \<noteq> None) ps"
proof (induction ps arbitrary: i evs)
  case Nil
  then show ?case by simp
next
  case (Cons p ps)
  from Cons.prems obtain s e where se: "start_time p = Some s" "end_time p = Some e"
    by (cases "start_time p"; cases "end_time p") auto
  from Cons.prems se have w: "write_segment env s e (path_join env od (output_filename b i))
                       (temp_audiofile env od i) = None"
    by (auto simp: Let_def split: option.splits)
  obtain evs' exc where r: "process_points env b od n (i + 1) ps = (evs', exc)"
    by (cases "process_points env b od n (i + 1) ps")
  from Cons.prems se w r have exc: "exc = None"
    and evs: "evs = segment_events env b od n i s e @ evs'"
    by (auto simp: Let_def)
  have ih: "evs' = concat (map (\<lambda>k. point_events env b od n (i + 1 + k) (ps ! k)) [0..<length ps])"
    and ih2: "list_all (\<lambda>p. start_time p \<noteq> None \<and> end_time p \<noteq> None) ps"
    using Cons.IH [of "i + 1" evs'] r exc by simp_all
  have "concat (map (\<lambda>k. point_events env b od n (i + k) ((p # ps) ! k)) [0..<length (p # ps)])
        = point_events env b od n i p @
          concat (map (\<lambda>k. point_events env b od n (i + 1 + k) (ps ! k)) [0..<length ps])"
    by (simp add: upt_shift del: upt_Suc)
  moreover have "point_events env b od n i p = segment_events env b od n i s e"
    by (simp add: point_events_def se)
  ultimately show ?case
    using evs ih ih2 se by simp
qed

lemma process_points_all_ok:
  "\<forall>k < length ps. encoder_outcome env b od (i + k) (ps ! k) = Some None \<Longrightarrow>
   process_points env b od n i ps =
     (concat (map (\<lambda>k. point_events env b od n (i + k) (ps ! k)) [0..<length ps]), None)"
proof (induction ps arbitrary: i)
  case Nil
  show ?case by simp
next
  case (Cons p ps)
  from Cons.prems have o: "encoder_outcome env b od i p = Some None" by fastforce
  then obtain s e where se: "start_time p = Some s" "end_time p = Some e"
    by (cases "start_time p"; cases "end_time p") (auto simp: encoder_outcome_def)
  from o se have w: "write_segment env s e (path_join env od (output_filename b i))
                       (temp_audiofile env od i) = None"
    by (simp add: encoder_outcome_def)
  have "\<forall>k < length ps. encoder_outcome env b od (i + 1 + k) (ps ! k) = Some None"
  proof (intro allI impI)
    fix k assume "k < length ps"
    then show "encoder_outcome env b od (i + 1 + k) (ps ! k) = Some None"
      using Cons.prems [rule_format, of "Suc k"] by simp
  qed
  then have ih: "process_points env b od n (i + 1) ps =
     (concat (map (\<lambda>k. point_events env b od n (i + 1 + k) (ps ! k)) [0..<length ps]), None)"
    by (rule Cons.IH)
  have "concat (map (\<lambda>k. point_events env b od n (i + k) ((p # ps) ! k)) [0..<length (p # ps)])
        = point_events env b od n i p @
          concat (map (\<lambda>k. point_events env b od n (i + 1 + k) (ps ! k)) [0..<length ps])"
    by (simp add: upt_shift del: upt_Suc)
  moreover have "point_events env b od n i p = segment_events env b od n i s e"
    by (simp add: point_events_def se)
  ultimately show ?case
    using se w ih by simp
qed

lemma process_points_encoder_fails:
  "k < length ps \<Longrightarrow>
   \<forall>j < k. encoder_outcome env b od (i + j) (ps ! j) = Some None \<Longrightarrow>
   encoder_outcome env b od (i + k) (ps ! k) = Some (Some msg) \<Longrightarrow>
   process_points env b od n i ps =
     (concat (map (\<lambda>j. point_events env b od n (i + j) (ps ! j)) [0..<Suc k]), Some msg)"
proof (induction ps arbitrary: i k)
  case Nil
  then show ?case by simp
next
  case (Cons p ps)
  show ?case
  proof (cases k)
    case 0
    with Cons.prems have o: "encoder_outcome env b od i p = Some (Some msg)" by simp
    then obtain s e where se: "start_time p = Some s" "end_time p = Some e"
      by (cases "start_time p"; cases "end_time p") (auto simp: encoder_outcome_def)
    from o se have w: "write_segment env s e (path_join env od (output_filename b i))
                         (temp_audiofile env od i) = Some msg"
      by (simp add: encoder_outcome_def)
    have "point_events env b od n i p = segment_events env b od n i s e"
      by (simp add: point_events_def se)
    then show ?thesis using 0 se w by simp
  next
    case (Suc k')
    from Cons.prems Suc have o: "encoder_outcome env b od i p = Some None" by fastforce
    then obtain s e where se: "start_time p = Some s" "end_time p = Some e"
      by (cases "start_time p"; cases "end_time p") (auto simp: encoder_outcome_def)
    from o se have w: "write_segment env s e (path_join env od (output_filename b i))
                         (temp_audiofile env od i) = None"
      by (simp add: encoder_outcome_def)
    have k': "k' < length ps" using Cons.prems(1) Suc by simp
    have ok: "\<forall>j < k'. encoder_outcome env b od (i + 1 + j) (ps ! j) = Some None"
    proof (intro allI impI)
      fix j assume "j < k'"
      then show "encoder_outcome env b od (i + 1 + j) (ps ! j) = Some None"
        using Cons.prems(2) [rule_format, of "Suc j"] Suc by simp
    qed
    have bad: "encoder_outcome env b od (i + 1 + k') (ps ! k') = Some (Some msg)"
      using Cons.prems(3) Suc by simp
    have ih: "process_points env b od n (i + 1) ps =
       (concat (map (\<lambda>j. point_events env b od n (i + 1 + j) (ps ! j)) [0..<Suc k']), Some msg)"
      by (rule Cons.IH [OF k' ok bad])
    have "concat (map (\<lambda>j. point_events env b od n (i + j) ((p # ps) ! j)) [0..<Suc (Suc k')])
          = point_events env b od n i p @
            concat (map (\<lambda>j. point_events env b od n (i + 1 + j) (ps ! j)) [0..<Suc k'])"
      by (simp add: upt_shift del: upt_Suc)
    moreover have "point_events env b od n i p = segment_events env b od n i s e"
      by (simp add: point_events_def se)
    ultimately show ?thesis
      using Suc se w ih by simp
  qed
qed


lemma split_video_opened:
  assumes "path \<noteq> []" and "od \<noteq> []" and "refs \<noteq> []"
    and "open_clip env path = Inr video"
    and "process_points env (base_name_of env path) od (length refs) 0
           (map (\<lambda>r. resolve_last_end env video heap refs ! r) refs) = (evs, exc)"
  shows "split_video env (Some path) (Some od) heap refs =
           (case exc of
              Some msg \<Rightarrow>
                (ClipOpened path # evs @ [ErrorOccurred (''Error splitting video: '' @ msg)],
                 resolve_last_end env video heap refs)
            | None \<Rightarrow>
                (ClipOpened path # evs @
                   [ClipClosed, ProgressUpdated (length refs) (length refs), SplittingCompleted],
                 resolve_last_end env video heap refs))"
  using assms by (cases exc) (simp_all add: split_video_def falsy_def Let_def)

lemma point_events_cases:
  assumes "ev \<in> set (point_events env b od n j p)"
  shows "ev = SegmentStarted (j + 1) (output_filename b j) \<or> ev = ProgressUpdated j n \<or>
         (\<exists>s e. ev = WriteVideofile s e (path_join env od (output_filename b j))
                       (temp_audiofile env od j))"
  using assms
  by (cases "start_time p"; cases "end_time p")
     (auto simp: point_events_def segment_events_def)

lemma segments_events_cases:
  assumes "ev \<in> set (concat (map (\<lambda>j. point_events env b od n j (f j)) [0..<m]))"
  shows "\<exists>j < m. ev = SegmentStarted (j + 1) (output_filename b j) \<or> ev = ProgressUpdated j n \<or>
         (\<exists>s e. ev = WriteVideofile s e (path_join env od (output_filename b j))
                       (temp_audiofile env od j))"
proof -
  from assms obtain j where j: "j < m" and "ev \<in> set (point_events env b od n j (f j))"
    by auto
  then show ?thesis using point_events_cases by blast
qed

section \<open>Failure of the encoder\<close>

text \<open>
  Claim C4. When the encoder returns for the first \<open>k\<close> selected intervals and raises
  on the next one, the run stops there: its trace is the opening of the clip, the
  events of these \<open>k + 1\<close> intervals, and one error signal that carries the text of the
  exception. Hence no completion signal and no final progress signal are emitted, no
  later segment is started, and the encoder is called for no later output file; the
  events of the intervals before the failing one stay in the trace, and nothing in it
  removes a file.
\<close>

theorem encoder_failure_aborts:
  assumes p: "path \<noteq> []" and o: "od \<noteq> []"
    and v: "open_clip env path = Inr video"
    and k: "k < length refs"
    and ok: "\<forall>j < k. encoder_outcome env (base_name_of env path) od j
                       (resolve_last_end env video heap refs ! (refs ! j)) = Some None"
    and bad: "encoder_outcome env (base_name_of env path) od k
                (resolve_last_end env video heap refs ! (refs ! k)) = Some (Some msg)"
  shows "fst (split_video env (Some path) (Some od) heap refs) =
           ClipOpened path #
           concat (map (\<lambda>j. point_events env (base_name_of env path) od (length refs) j
                              (resolve_last_end env video heap refs ! (refs ! j))) [0..<Suc k]) @
           [ErrorOccurred (''Error splitting video: '' @ msg)] \<and>
         SplittingCompleted \<notin> set (fst (split_video env (Some path) (Some od) heap refs)) \<and>
         ProgressUpdated (length refs) (length refs)
           \<notin> set (fst (split_video env (Some path) (Some od) heap refs)) \<and>
         (\<forall>j name. Suc k < j \<longrightarrow>
            SegmentStarted j name \<notin> set (fst (split_video env (Some path) (Some od) heap refs))) \<and>
         (\<forall>s e out tmp.
            WriteVideofile s e out tmp \<in> set (fst (split_video env (Some path) (Some od) heap refs))
            \<longrightarrow> (\<exists>j \<le> k. out = path_join env od (output_filename (base_name_of env path) j)))"
proof -
  let ?heap' = "resolve_last_end env video heap refs"
  let ?ps = "map (\<lambda>r. ?heap' ! r) refs"
  let ?b = "base_name_of env path"
  let ?n = "length refs"
  let ?segs = "concat (map (\<lambda>j. point_events env ?b od ?n j (?heap' ! (refs ! j))) [0..<Suc k])"
  let ?trace = "fst (split_video env (Some path) (Some od) heap refs)"
  have ne: "refs \<noteq> []" using k by auto
  have k': "k < length ?ps" using k by simp
  have ok': "\<forall>j < k. encoder_outcome env ?b od (0 + j) (?ps ! j) = Some None"
    using ok k by simp
  have bad': "encoder_outcome env ?b od (0 + k) (?ps ! k) = Some (Some msg)"
    using bad k by simp
  have eq: "map (\<lambda>j. point_events env ?b od ?n (0 + j) (?ps ! j)) [0..<Suc k] =
            map (\<lambda>j. point_events env ?b od ?n j (?heap' ! (refs ! j))) [0..<Suc k]"
    using k by (intro map_cong) auto
  have pp: "process_points env ?b od ?n 0 ?ps = (?segs, Some msg)"
    using process_points_encoder_fails [OF k' ok' bad', of ?n] unfolding eq .
  have t: "?trace = ClipOpened path # ?segs @ [ErrorOccurred (''Error splitting video: '' @ msg)]"
    using split_video_opened [OF p o ne v pp] by simp
  have mem: "\<And>ev. ev \<in> set ?trace \<Longrightarrow>
               ev = ClipOpened path \<or> ev = ErrorOccurred (''Error splitting video: '' @ msg) \<or>
               ev \<in> set ?segs"
    unfolding t by auto
  have seg: "\<And>ev. ev \<in> set ?segs \<Longrightarrow>
               \<exists>j < Suc k. ev = SegmentStarted (j + 1) (output_filename ?b j) \<or>
                 ev = ProgressUpdated j ?n \<or>
                 (\<exists>s e. ev = WriteVideofile s e (path_join env od (output_filename ?b j))
                               (temp_audiofile env od j))"
    by (rule segments_events_cases)
  have c1: "SplittingCompleted \<notin> set ?trace"
    using mem [of SplittingCompleted] seg [of SplittingCompleted] by auto
  have c2: "ProgressUpdated ?n ?n \<notin> set ?trace"
    using mem [of "ProgressUpdated ?n ?n"] seg [of "ProgressUpdated ?n ?n"] k by auto
  have c3: "\<forall>j name. Suc k < j \<longrightarrow> SegmentStarted j name \<notin> set ?trace"
  proof (intro allI impI)
    fix j name assume "Suc k < j"
    then show "SegmentStarted j name \<notin> set ?trace"
      using mem [of "SegmentStarted j name"] seg [of "SegmentStarted j name"] by auto
  qed
  have c4: "\<forall>s e out tmp. WriteVideofile s e out tmp \<in> set ?trace
              \<longrightarrow> (\<exists>j \<le> k. out = path_join env od (output_filename ?b j))"
  proof (intro allI impI)
    fix s e out tmp assume "WriteVideofile s e out tmp \<in> set ?trace"
    then have "WriteVideofile s e out tmp \<in> set ?segs"
      using mem [of "WriteVideofile s e out tmp"] by auto
    then obtain j where "j < Suc k" and "out = path_join env od (output_filename ?b j)"
      using seg [of "WriteVideofile s e out tmp"] by auto
    then show "\<exists>j \<le> k. out = path_join env od (output_filename ?b j)"
      by (intro exI [of _ j]) simp
  qed
  show ?thesis
    by (intro conjI) (rule t c1 c2 c3 c4)+
qed

theorem encoder_failure_aborts_witness:
  "''name.mp4'' \<noteq> [] \<and> ''out'' \<noteq> [] \<and>
   open_clip (sample_env 30000) ''name.mp4'' =
     Inr \<lparr>clip_duration = 90, clip_w = 640, clip_h = 480, clip_fps = 25\<rparr> \<and>
   (1::nat) < length [0, 1, 2 :: nat] \<and>
   encoder_outcome (sample_env 30000) ''name'' ''out'' 0
     \<lparr>start_time = Some 0, end_time = Some 30000, selected = True\<rparr> = Some None \<and>
   encoder_outcome (sample_env 30000) ''name'' ''out'' 1
     \<lparr>start_time = Some 30000, end_time = Some 60000, selected = True\<rparr>
     = Some (Some ''encoder failed'') \<and>
   fst (split_video (sample_env 30000) (Some ''name.mp4'') (Some ''out'')
          [\<lparr>start_time = Some 0, end_time = Some 30000, selected = True\<rparr>,
           \<lparr>start_time = Some 30000, end_time = Some 60000, selected = True\<rparr>,
           \<lparr>start_time = Some 60000, end_time = Some 90000, selected = True\<rparr>]
          [0, 1, 2]) =
     [ClipOpened ''name.mp4'',
      SegmentStarted 1 ''name_split_1.mp4'', ProgressUpdated 0 3,
      WriteVideofile 0 30000 ''out/name_split_1.mp4'' ''out/temp_audio_0.m4a'',
      SegmentStarted 2 ''name_split_2.mp4'', ProgressUpdated 1 3,
      WriteVideofile 30000 60000 ''out/name_split_2.mp4'' ''out/temp_audio_1.m4a'',
      ErrorOccurred ''Error splitting video: encoder failed'']"
proof -
  let ?heap = "[\<lparr>start_time = Some 0, end_time = Some 30000, selected = True\<rparr>,
                \<lparr>start_time = Some 30000, end_time = Some 60000, selected = True\<rparr>,
                \<lparr>start_time = Some 60000, end_time = Some (90000::int), selected = True\<rparr>]"
  let ?video = "\<lparr>clip_duration = 90::int, clip_w = 640, clip_h = 480, clip_fps = 25\<rparr>"
  have p: "''name.mp4'' \<noteq> []" and o: "''out'' \<noteq> []" by simp_all
  have v: "open_clip (sample_env 30000) ''name.mp4'' = Inr ?video"
    by (simp add: sample_env_def)
  have k: "(1::nat) < length [0, 1, 2 :: nat]" by simp
  have b: "base_name_of (sample_env 30000) ''name.mp4'' = ''name''"
    by (simp add: sample_env_def)
  have r: "resolve_last_end (sample_env 30000) ?video ?heap [0, 1, 2] = ?heap"
    by (simp add: resolve_last_end_def)
  have o0: "encoder_outcome (sample_env 30000) ''name'' ''out'' 0
              \<lparr>start_time = Some 0, end_time = Some 30000, selected = True\<rparr> = Some None"
    by (simp add: encoder_outcome_def sample_env_def)
  have o1: "encoder_outcome (sample_env 30000) ''name'' ''out'' 1
              \<lparr>start_time = Some 30000, end_time = Some 60000, selected = True\<rparr>
              = Some (Some ''encoder failed'')"
    by (simp add: encoder_outcome_def sample_env_def)
  have ok: "\<forall>j < 1. encoder_outcome (sample_env 30000)
              (base_name_of (sample_env 30000) ''name.mp4'') ''out'' j
              (resolve_last_end (sample_env 30000) ?video ?heap [0, 1, 2] ! ([0, 1, 2] ! j))
              = Some None"
    unfolding b r using o0 by simp
  have bad: "encoder_outcome (sample_env 30000)
              (base_name_of (sample_env 30000) ''name.mp4'') ''out'' 1
              (resolve_last_end (sample_env 30000) ?video ?heap [0, 1, 2] ! ([0, 1, 2] ! 1))
              = Some (Some ''encoder failed'')"
    unfolding b r using o1 by simp
  note t = encoder_failure_aborts [OF p o v k ok bad, THEN conjunct1]
  have f: "fst (split_video (sample_env 30000) (Some ''name.mp4'') (Some ''out'') ?heap [0, 1, 2]) =
     [ClipOpened ''name.mp4'',
      SegmentStarted 1 ''name_split_1.mp4'', ProgressUpdated 0 3,
      WriteVideofile 0 30000 ''out/name_split_1.mp4'' ''out/temp_audio_0.m4a'',
      SegmentStarted 2 ''name_split_2.mp4'', ProgressUpdated 1 3,
      WriteVideofile 30000 60000 ''out/name_split_2.mp4'' ''out/temp_audio_1.m4a'',
      ErrorOccurred ''Error splitting video: encoder failed'']"
    by (subst t) code_simp
  show ?thesis
    by (intro conjI) (rule p o v k o0 o1 f)+
qed

section \<open>A successful export\<close>

lemma process_points_no_completion:
  "process_points env b od n i ps = (evs, exc) \<Longrightarrow> SplittingCompleted \<notin> set evs"
proof (induction ps arbitrary: i evs exc)
  case Nil
  then show ?case by simp
next
  case (Cons p ps)
  obtain evs' exc' where r: "process_points env b od n (i + 1) ps = (evs', exc')"
    by (cases "process_points env b od n (i + 1) ps")
  have ih: "SplittingCompleted \<notin> set evs'" using Cons.IH [OF r] .
  from Cons.prems r ih show ?case
    by (cases "start_time p"; cases "end_time p")
       (auto simp: Let_def segment_events_def split: option.splits)
qed

lemma split_video_completed:
  assumes "SplittingCompleted \<in> set (fst (split_video env (Some path) (Some od) heap refs))"
  shows "\<exists>video evs. path \<noteq> [] \<and> od \<noteq> [] \<and> refs \<noteq> [] \<and>
           open_clip env path = Inr video \<and>
           process_points env (base_name_of env path) od (length refs) 0
             (map (\<lambda>r. resolve_last_end env video heap refs ! r) refs) = (evs, None)"
proof -
  have c: "path \<noteq> [] \<and> od \<noteq> [] \<and> refs \<noteq> []"
  proof (rule ccontr)
    assume "\<not> (path \<noteq> [] \<and> od \<noteq> [] \<and> refs \<noteq> [])"
    then have "SplittingCompleted \<notin> set (fst (split_video env (Some path) (Some od) heap refs))"
      by (auto simp: split_video_def falsy_def)
    with assms show False by simp
  qed
  obtain video where v: "open_clip env path = Inr video"
  proof (cases "open_clip env path")
    case (Inl msg)
    then have "SplittingCompleted \<notin> set (fst (split_video env (Some path) (Some od) heap refs))"
      using c by (simp add: split_video_def falsy_def)
    with assms show ?thesis by simp
  next
    case (Inr video)
    then show ?thesis by (rule that)
  qed
  obtain evs exc where pp: "process_points env (base_name_of env path) od (length refs) 0
             (map (\<lambda>r. resolve_last_end env video heap refs ! r) refs) = (evs, exc)"
    by (cases "process_points env (base_name_of env path) od (length refs) 0
             (map (\<lambda>r. resolve_last_end env video heap refs ! r) refs)")
  have "exc = None"
  proof (cases exc)
    case None
    then show ?thesis .
  next
    case (Some msg)
    have "SplittingCompleted \<notin> set evs" using process_points_no_completion [OF pp] .
    then have "SplittingCompleted \<notin> set (fst (split_video env (Some path) (Some od) heap refs))"
      using split_video_opened [of path od refs env video heap evs exc] c v pp Some by simp
    with assms show ?thesis by simp
  qed
  with c v pp show ?thesis by blast
qed

lemma signals_of_point_events:
  "start_time p \<noteq> None \<Longrightarrow> end_time p \<noteq> None \<Longrightarrow>
   filter is_signal (point_events env b od n i p) =
     [SegmentStarted (i + 1) (b @ ''_split_'' @ str_nat (i + 1) @ ''.mp4''), ProgressUpdated i n]"
  by (auto simp: point_events_def segment_events_def is_signal_def output_filename_def)

text \<open>
  Claim C5. A run that emits the completion signal has processed all \<open>n\<close> selected
  intervals in the order of the list, each with both times set. Its signals are, for
  each \<open>i\<close> from 1 to \<open>n\<close>, the start of segment \<open>i\<close> with the file name
  \<open>base_split_i.mp4\<close> and then the progress \<open>(i - 1, n)\<close>, followed by the progress
  \<open>(n, n)\<close> and the completion signal. The extension is always \<open>mp4\<close>.
\<close>

theorem successful_export_trace:
  assumes "SplittingCompleted \<in> set (fst (split_video env (Some path) (Some od) heap refs))"
  shows "fst (split_video env (Some path) (Some od) heap refs) =
           ClipOpened path #
           concat (map (\<lambda>i. point_events env (base_name_of env path) od (length refs) i
                              (snd (split_video env (Some path) (Some od) heap refs) ! (refs ! i)))
                     [0..<length refs]) @
           [ClipClosed, ProgressUpdated (length refs) (length refs), SplittingCompleted] \<and>
         list_all (\<lambda>r. start_time (snd (split_video env (Some path) (Some od) heap refs) ! r) \<noteq> None \<and>
                       end_time (snd (split_video env (Some path) (Some od) heap refs) ! r) \<noteq> None)
           refs \<and>
         filter is_signal (fst (split_video env (Some path) (Some od) heap refs)) =
           concat (map (\<lambda>i. [SegmentStarted (i + 1)
                                 (base_name_of env path @ ''_split_'' @ str_nat (i + 1) @ ''.mp4''),
                               ProgressUpdated i (length refs)])
                     [0..<length refs]) @
           [ProgressUpdated (length refs) (length refs), SplittingCompleted]"
proof -
  let ?b = "base_name_of env path"
  let ?n = "length refs"
  from split_video_completed [OF assms] obtain video evs where
    c: "path \<noteq> []" "od \<noteq> []" "refs \<noteq> []" and v: "open_clip env path = Inr video" and
    pp: "process_points env ?b od ?n 0
           (map (\<lambda>r. resolve_last_end env video heap refs ! r) refs) = (evs, None)"
    by blast
  let ?heap' = "resolve_last_end env video heap refs"
  let ?ps = "map (\<lambda>r. ?heap' ! r) refs"
  let ?segs = "concat (map (\<lambda>i. point_events env ?b od ?n i (?heap' ! (refs ! i))) [0..<?n])"
  have sv: "split_video env (Some path) (Some od) heap refs =
              (ClipOpened path # evs @ [ClipClosed, ProgressUpdated ?n ?n, SplittingCompleted], ?heap')"
    using split_video_opened [OF c v pp] by simp
  have eq: "map (\<lambda>k. point_events env ?b od ?n (0 + k) (?ps ! k)) [0..<length ?ps] =
            map (\<lambda>i. point_events env ?b od ?n i (?heap' ! (refs ! i))) [0..<?n]"
    by (intro map_cong) auto
  have evs: "evs = ?segs"
    using process_points_completed [OF pp, THEN conjunct1] unfolding eq .
  have times: "list_all (\<lambda>p. start_time p \<noteq> None \<and> end_time p \<noteq> None) ?ps"
    using process_points_completed [OF pp, THEN conjunct2] .
  then have times': "list_all (\<lambda>r. start_time (?heap' ! r) \<noteq> None \<and> end_time (?heap' ! r) \<noteq> None) refs"
    by (simp add: list_all_iff)
  have sig: "filter is_signal ?segs =
               concat (map (\<lambda>i. [SegmentStarted (i + 1) (?b @ ''_split_'' @ str_nat (i + 1) @ ''.mp4''),
                                   ProgressUpdated i ?n]) [0..<?n])"
  proof -
    have "map (\<lambda>i. filter is_signal (point_events env ?b od ?n i (?heap' ! (refs ! i)))) [0..<?n] =
          map (\<lambda>i. [SegmentStarted (i + 1) (?b @ ''_split_'' @ str_nat (i + 1) @ ''.mp4''),
                      ProgressUpdated i ?n]) [0..<?n]"
    proof (intro map_cong refl)
      fix i assume "i \<in> set [0..<?n]"
      then have "refs ! i \<in> set refs" by simp
      then have "start_time (?heap' ! (refs ! i)) \<noteq> None" "end_time (?heap' ! (refs ! i)) \<noteq> None"
        using times' by (simp_all add: list_all_iff)
      then show "filter is_signal (point_events env ?b od ?n i (?heap' ! (refs ! i))) =
                 [SegmentStarted (i + 1) (?b @ ''_split_'' @ str_nat (i + 1) @ ''.mp4''),
                  ProgressUpdated i ?n]"
        by (rule signals_of_point_events)
    qed
    then show ?thesis
      by (simp only: filter_concat map_map comp_def)
  qed
  have f: "fst (split_video env (Some path) (Some od) heap refs) =
             ClipOpened path # ?segs @ [ClipClosed, ProgressUpdated ?n ?n, SplittingCompleted]"
    unfolding sv evs by simp
  have s: "snd (split_video env (Some path) (Some od) heap refs) = ?heap'"
    unfolding sv by simp
  have g: "filter is_signal (fst (split_video env (Some path) (Some od) heap refs)) =
             concat (map (\<lambda>i. [SegmentStarted (i + 1) (?b @ ''_split_'' @ str_nat (i + 1) @ ''.mp4''),
                                 ProgressUpdated i ?n]) [0..<?n]) @
             [ProgressUpdated ?n ?n, SplittingCompleted]"
    unfolding f using sig by (simp add: is_signal_def)
  show ?thesis
    unfolding s by (intro conjI) (rule f [unfolded s] times' g)+
qed

theorem successful_export_trace_witness:
  "SplittingCompleted \<in> set (fst (split_video (sample_env (- 1)) (Some ''name.mp4'') (Some ''out'')
     [\<lparr>start_time = Some 0, end_time = Some 30000, selected = True\<rparr>,
      \<lparr>start_time = Some 30000, end_time = Some 60000, selected = True\<rparr>] [0, 1])) \<and>
   filter is_signal (fst (split_video (sample_env (- 1)) (Some ''name.mp4'') (Some ''out'')
     [\<lparr>start_time = Some 0, end_time = Some 30000, selected = True\<rparr>,
      \<lparr>start_time = Some 30000, end_time = Some 60000, selected = True\<rparr>] [0, 1])) =
     [SegmentStarted 1 ''name_split_1.mp4'', ProgressUpdated 0 2,
      SegmentStarted 2 ''name_split_2.mp4'', ProgressUpdated 1 2,
      ProgressUpdated 2 2, SplittingCompleted]"
proof -
  let ?heap = "[\<lparr>start_time = Some 0, end_time = Some 30000, selected = True\<rparr>,
                \<lparr>start_time = Some 30000, end_time = Some (60000::int), selected = True\<rparr>]"
  have h: "SplittingCompleted \<in> set (fst (split_video (sample_env (- 1)) (Some ''name.mp4'')
             (Some ''out'') ?heap [0, 1]))"
    by code_simp
  note t = successful_export_trace [OF h, THEN conjunct2, THEN conjunct2]
  have f: "filter is_signal (fst (split_video (sample_env (- 1)) (Some ''name.mp4'') (Some ''out'')
             ?heap [0, 1])) =
     [SegmentStarted 1 ''name_split_1.mp4'', ProgressUpdated 0 2,
      SegmentStarted 2 ''name_split_2.mp4'', ProgressUpdated 1 2,
      ProgressUpdated 2 2, SplittingCompleted]"
    by (subst t) code_simp
  show ?thesis
    by (intro conjI) (rule h f)+
qed

section \<open>Missing configuration\<close>

text \<open>
  Without an output directory, or with an empty selection, \<open>split_video\<close> emits the
  error signal: the trace of such a run is not empty.
\<close>

theorem configuration_error_counterexample:
  "fst (split_video (sample_env (- 1)) (Some ''name.mp4'') None
     [\<lparr>start_time = Some 0, end_time = Some 30000, selected = True\<rparr>] [0]) =
     [ErrorOccurred ''Video path or output directory not set''] \<and>
   fst (split_video (sample_env (- 1)) (Some ''name.mp4'') (Some ''out'')
     [\<lparr>start_time = Some 0, end_time = Some 30000, selected = False\<rparr>] []) =
     [ErrorOccurred ''No split points defined'']"
  by (simp add: split_video_def falsy_def)

text \<open>
  Claim C6, as the code has it. When the video path or the output directory is not
  set, or when both are set and the selection is empty, the run consists of exactly one
  error signal with the corresponding message: no other signal is emitted, the clip is
  not opened, the encoder is not called, and the split points are unchanged.
\<close>

theorem configuration_error_only:
  "(falsy video_path \<or> falsy output_dir \<longrightarrow>
      split_video env video_path output_dir heap refs =
        ([ErrorOccurred ''Video path or output directory not set''], heap)) \<and>
   (\<not> falsy video_path \<and> \<not> falsy output_dir \<and> refs = [] \<longrightarrow>
      split_video env video_path output_dir heap refs =
        ([ErrorOccurred ''No split points defined''], heap))"
  by (cases video_path; cases output_dir) (auto simp: split_video_def falsy_def)

theorem configuration_error_only_witness:
  "falsy None \<and>
   split_video (sample_env (- 1)) (Some ''name.mp4'') None
     [\<lparr>start_time = Some 0, end_time = Some 30000, selected = True\<rparr>] [0] =
     ([ErrorOccurred ''Video path or output directory not set''],
      [\<lparr>start_time = Some 0, end_time = Some 30000, selected = True\<rparr>]) \<and>
   \<not> falsy (Some ''name.mp4'') \<and> \<not> falsy (Some ''out'') \<and>
   split_video (sample_env (- 1)) (Some ''name.mp4'') (Some ''out'')
     [\<lparr>start_time = Some 0, end_time = Some 30000, selected = False\<rparr>] [] =
     ([ErrorOccurred ''No split points defined''],
      [\<lparr>start_time = Some 0, end_time = Some 30000, selected = False\<rparr>])"
proof -
  have a: "falsy None" by (simp add: falsy_def)
  have b: "\<not> falsy (Some ''name.mp4'')" and c: "\<not> falsy (Some ''out'')"
    by (simp_all add: falsy_def)
  have 1: "split_video (sample_env (- 1)) (Some ''name.mp4'') None
     [\<lparr>start_time = Some 0, end_time = Some 30000, selected = True\<rparr>] [0] =
     ([ErrorOccurred ''Video path or output directory not set''],
      [\<lparr>start_time = Some 0, end_time = Some 30000, selected = True\<rparr>])"
    by (rule configuration_error_only [THEN conjunct1, THEN mp, OF disjI2, OF a])
  have 2: "split_video (sample_env (- 1)) (Some ''name.mp4'') (Some ''out'')
     [\<lparr>start_time = Some 0, end_time = Some 30000, selected = False\<rparr>] [] =
     ([ErrorOccurred ''No split points defined''],
      [\<lparr>start_time = Some 0, end_time = Some 30000, selected = False\<rparr>])"
    by (rule configuration_error_only [THEN conjunct2, THEN mp]) (intro conjI b c refl)
  show ?thesis
    by (intro conjI) (rule a b c 1 2)+
qed

section \<open>The effect of an export on the table's split points\<close>

lemma snd_split_video_opened:
  assumes "path \<noteq> []" and "od \<noteq> []" and "refs \<noteq> []"
    and "open_clip env path = Inr video"
  shows "snd (split_video env (Some path) (Some od) heap refs) =
           resolve_last_end env video heap refs"
proof -
  obtain evs exc where pp: "process_points env (base_name_of env path) od (length refs) 0
             (map (\<lambda>r. resolve_last_end env video heap refs ! r) refs) = (evs, exc)"
    by (cases "process_points env (base_name_of env path) od (length refs) 0
             (map (\<lambda>r. resolve_last_end env video heap refs ! r) refs)")
  show ?thesis
    using split_video_opened [OF assms pp] by (cases exc) simp_all
qed

text \<open>
  When the clip cannot be opened the export fails and the open end of the last
  interval stays open.
\<close>

theorem export_unopened_counterexample:
  "split_video (sample_env (- 1)) (Some ''missing.mp4'') (Some ''out'')
     [\<lparr>start_time = Some 0, end_time = None, selected = True\<rparr>] [0] =
     ([ErrorOccurred ''Error splitting video: file not found''],
      [\<lparr>start_time = Some 0, end_time = None, selected = True\<rparr>])"
  by (simp add: split_video_def falsy_def sample_env_def)

text \<open>
  Claim C10, as the code has it. Once the clip has been opened, an unset end of the
  last interval passed in is overwritten, in the table's own object, with the duration
  of the clip in milliseconds, whether the encoder then succeeds or fails; every other
  field of every interval is unchanged. When the end of the last interval is set, or
  when the run stops before the clip is opened (missing configuration, empty selection,
  or a clip that cannot be opened), the split points are unchanged.
\<close>

theorem export_resolves_last_end:
  "(path \<noteq> [] \<and> od \<noteq> [] \<and> refs \<noteq> [] \<and> open_clip env path = Inr video \<and>
    end_time (heap ! last refs) = None \<longrightarrow>
      snd (split_video env (Some path) (Some od) heap refs) =
        heap[last refs := (heap ! last refs)
               \<lparr>end_time := Some (int_of_float env (times_1000 env (clip_duration video)))\<rparr>]) \<and>
   (open_clip env path = Inr video \<and> end_time (heap ! last refs) \<noteq> None \<longrightarrow>
      snd (split_video env (Some path) (Some od) heap refs) = heap) \<and>
   (path = [] \<or> od = [] \<or> refs = [] \<or> isl (open_clip env path) \<longrightarrow>
      snd (split_video env (Some path) (Some od) heap refs) = heap)"
proof (intro conjI impI)
  assume "path \<noteq> [] \<and> od \<noteq> [] \<and> refs \<noteq> [] \<and> open_clip env path = Inr video \<and>
    end_time (heap ! last refs) = None"
  then show "snd (split_video env (Some path) (Some od) heap refs) =
        heap[last refs := (heap ! last refs)
               \<lparr>end_time := Some (int_of_float env (times_1000 env (clip_duration video)))\<rparr>]"
    by (simp add: snd_split_video_opened resolve_last_end_def)
next
  assume a: "open_clip env path = Inr video \<and> end_time (heap ! last refs) \<noteq> None"
  show "snd (split_video env (Some path) (Some od) heap refs) = heap"
  proof (cases "path \<noteq> [] \<and> od \<noteq> [] \<and> refs \<noteq> []")
    case True
    then show ?thesis using a by (auto simp: snd_split_video_opened resolve_last_end_def)
  next
    case False
    then show ?thesis by (auto simp: split_video_def falsy_def)
  qed
next
  assume a: "path = [] \<or> od = [] \<or> refs = [] \<or> isl (open_clip env path)"
  show "snd (split_video env (Some path) (Some od) heap refs) = heap"
  proof (cases "path = [] \<or> od = [] \<or> refs = []")
    case True
    then show ?thesis by (auto simp: split_video_def falsy_def)
  next
    case False
    with a obtain msg where "open_clip env path = Inl msg"
      by (cases "open_clip env path") auto
    with False show ?thesis by (simp add: split_video_def falsy_def)
  qed
qed

theorem export_resolves_last_end_witness:
  "get_selected_points
     [\<lparr>start_time = Some 0, end_time = Some 30000, selected = False\<rparr>,
      \<lparr>start_time = Some 30000, end_time = None, selected = True\<rparr>] = [1] \<and>
   ''name.mp4'' \<noteq> [] \<and> ''out'' \<noteq> [] \<and> [1::nat] \<noteq> [] \<and>
   open_clip (sample_env 30000) ''name.mp4'' =
     Inr \<lparr>clip_duration = 90, clip_w = 640, clip_h = 480, clip_fps = 25\<rparr> \<and>
   end_time ([\<lparr>start_time = Some 0, end_time = Some 30000, selected = False\<rparr>,
              \<lparr>start_time = Some 30000, end_time = None, selected = True\<rparr>] ! last [1]) = None \<and>
   snd (split_video (sample_env 30000) (Some ''name.mp4'') (Some ''out'')
     [\<lparr>start_time = Some 0, end_time = Some 30000, selected = False\<rparr>,
      \<lparr>start_time = Some 30000, end_time = None, selected = True\<rparr>] [1]) =
     [\<lparr>start_time = Some 0, end_time = Some 30000, selected = False\<rparr>,
      \<lparr>start_time = Some 30000, end_time = Some 90000, selected = True\<rparr>] \<and>
   end_time ([\<lparr>start_time = Some 0, end_time = Some 30000, selected = True\<rparr>] ! last [0])
     \<noteq> None \<and>
   snd (split_video (sample_env 30000) (Some ''name.mp4'') (Some ''out'')
     [\<lparr>start_time = Some 0, end_time = Some 30000, selected = True\<rparr>] [0]) =
     [\<lparr>start_time = Some 0, end_time = Some 30000, selected = True\<rparr>] \<and>
   isl (open_clip (sample_env 30000) ''missing.mp4'') \<and>
   snd (split_video (sample_env 30000) (Some ''missing.mp4'') (Some ''out'')
     [\<lparr>start_time = Some 0, end_time = None, selected = True\<rparr>] [0]) =
     [\<lparr>start_time = Some 0, end_time = None, selected = True\<rparr>]"
proof -
  let ?heap = "[\<lparr>start_time = Some 0, end_time = Some 30000, selected = False\<rparr>,
                \<lparr>start_time = Some (30000::int), end_time = None, selected = True\<rparr>]"
  let ?video = "\<lparr>clip_duration = 90::int, clip_w = 640, clip_h = 480, clip_fps = 25\<rparr>"
  have g: "get_selected_points ?heap = [1]" by code_simp
  have p: "''name.mp4'' \<noteq> []" and o: "''out'' \<noteq> []" and n: "[1::nat] \<noteq> []" by simp_all
  have v: "open_clip (sample_env 30000) ''name.mp4'' = Inr ?video"
    by (simp add: sample_env_def)
  have e: "end_time (?heap ! last [1]) = None" by simp
  have 1: "snd (split_video (sample_env 30000) (Some ''name.mp4'') (Some ''out'') ?heap [1]) =
     [\<lparr>start_time = Some 0, end_time = Some 30000, selected = False\<rparr>,
      \<lparr>start_time = Some 30000, end_time = Some 90000, selected = True\<rparr>]"
    by (subst export_resolves_last_end [THEN conjunct1, THEN mp, of "''name.mp4''" "''out''" "[1]"
          "sample_env 30000" ?video ?heap])
       (simp_all add: v sample_env_def)
  have e2: "end_time ([\<lparr>start_time = Some 0, end_time = Some (30000::int), selected = True\<rparr>] ! last [0])
     \<noteq> None" by simp
  have 2: "snd (split_video (sample_env 30000) (Some ''name.mp4'') (Some ''out'')
     [\<lparr>start_time = Some 0, end_time = Some 30000, selected = True\<rparr>] [0]) =
     [\<lparr>start_time = Some 0, end_time = Some 30000, selected = True\<rparr>]"
    by (rule export_resolves_last_end
          [of _ _ _ "sample_env 30000" ?video, THEN conjunct2, THEN conjunct1, THEN mp,
           OF conjI [OF v e2]])
  have i: "isl (open_clip (sample_env 30000) ''missing.mp4'')"
    by (simp add: sample_env_def)
  have 3: "snd (split_video (sample_env 30000) (Some ''missing.mp4'') (Some ''out'')
     [\<lparr>start_time = Some 0, end_time = None, selected = True\<rparr>] [0]) =
     [\<lparr>start_time = Some 0, end_time = None, selected = True\<rparr>]"
    by (rule export_resolves_last_end [THEN conjunct2, THEN conjunct2, THEN mp])
       (intro disjI2 i)
  show ?thesis
    by (intro conjI) (rule g p o n v e 1 e2 2 i 3)+
qed

section \<open>Release of the clip\<close>

text \<open>
  Claim C2. The clip is closed when the export completes and when the video information
  has been read. It is not closed when the encoder raises: the run below opens the clip
  and ends with the error signal, without closing it.
\<close>

theorem clip_left_open_after_encoder_error:
  "fst (split_video (sample_env 0) (Some ''name.mp4'') (Some ''out'')
     [\<lparr>start_time = Some 0, end_time = Some 30000, selected = True\<rparr>] [0]) =
     [ClipOpened ''name.mp4'',
      SegmentStarted 1 ''name_split_1.mp4'', ProgressUpdated 0 1,
      WriteVideofile 0 30000 ''out/name_split_1.mp4'' ''out/temp_audio_0.m4a'',
      ErrorOccurred ''Error splitting video: encoder failed''] \<and>
   ClipClosed \<notin> set (fst (split_video (sample_env 0) (Some ''name.mp4'') (Some ''out'')
     [\<lparr>start_time = Some 0, end_time = Some 30000, selected = True\<rparr>] [0]))"
  by code_simp

lemma get_video_info_closes:
  "ClipOpened p \<in> set (fst (get_video_info env video_path)) \<Longrightarrow>
     fst (get_video_info env video_path) = [ClipOpened p, ClipClosed]"
  by (auto simp: get_video_info_def split: option.splits if_splits sum.splits)

lemma split_video_closes_on_completion:
  assumes "SplittingCompleted \<in> set (fst (split_video env (Some path) (Some od) heap refs))"
  shows "ClipClosed \<in> set (fst (split_video env (Some path) (Some od) heap refs))"
proof -
  from split_video_completed [OF assms] obtain video evs where
    c: "path \<noteq> []" "od \<noteq> []" "refs \<noteq> []" and v: "open_clip env path = Inr video" and
    pp: "process_points env (base_name_of env path) od (length refs) 0
           (map (\<lambda>r. resolve_last_end env video heap refs ! r) refs) = (evs, None)"
    by blast
  show ?thesis
    using split_video_opened [OF c v pp] by simp
qed

end
